theory Spec2Isabelle
  imports Main "HOL-Library.Sublist"
begin

section \<open>The JavaScript string operations used by the plugin\<close>

text \<open>
  The result transformation of \<^verbatim>\<open>_showForm\<close> (imageocrlatexui.js, lines 192-200) is
  \<^verbatim>\<open>
  const latexes = data.latex_maths.data;
  let result = data.math_text.data;
  for ( let latex of [ ...new Set( latexes ) ] ) {
      result = result.replaceAll( latex, `<span class="math-tex">${ latex }</span>` );
  }
  result = `<p>${ result }</p>`;
  \<close>
  It rests on three operations of the language: the insertion-ordered \<^verbatim>\<open>Set\<close>, its
  spreading into an array, and \<^verbatim>\<open>String.prototype.replaceAll\<close> called with a string
  pattern and a string replacement. They are modelled here step by step after the
  ECMAScript definition. A JavaScript string is a sequence of code units; the model
  uses \<^typ>\<open>string\<close>, a list of characters.
\<close>

subsection \<open>Set construction and spreading\<close>

text \<open>
  \<^verbatim>\<open>new Set(xs)\<close> adds the elements of \<^verbatim>\<open>xs\<close> one after another; an element
  already present is not added again and keeps its place. Spreading the set lists the
  elements in insertion order.
\<close>

fun set_add :: "'a list \<Rightarrow> 'a \<Rightarrow> 'a list" where
  "set_add entries x = (if x \<in> set entries then entries else entries @ [x])"

declare set_add.simps [simp del]

definition spread_new_Set :: "'a list \<Rightarrow> 'a list" where
  "spread_new_Set xs = foldl set_add [] xs"

subsection \<open>StringIndexOf\<close>

text \<open>
  \<^verbatim>\<open>StringIndexOf(string, searchValue, fromIndex)\<close>: the smallest index \<open>i\<close> with
  \<open>fromIndex \<le> i \<le> len - searchLen\<close> at which \<open>searchValue\<close> occurs in \<open>string\<close>, or
  not-found (\<open>None\<close>). For the empty \<open>searchValue\<close> and \<open>fromIndex \<le> len\<close> the answer is
  \<open>fromIndex\<close>, which the search below yields as well, since the empty string occurs at
  every index.
\<close>

definition occurs_at :: "string \<Rightarrow> string \<Rightarrow> nat \<Rightarrow> bool" where
  "occurs_at str searchValue i = (take (length searchValue) (drop i str) = searchValue)"

definition StringIndexOf :: "string \<Rightarrow> string \<Rightarrow> nat \<Rightarrow> nat option" where
  "StringIndexOf str searchValue fromIndex =
     find (occurs_at str searchValue) [fromIndex ..< Suc (length str) - length searchValue]"

subsection \<open>GetSubstitution\<close>

text \<open>
  \<^verbatim>\<open>GetSubstitution(matched, str, position, captures, namedCaptures, replacementTemplate)\<close>
  as \<^verbatim>\<open>replaceAll\<close> calls it for a string pattern: there are no captures and no named
  captures. The template is scanned from the left. \<^verbatim>\<open>$$\<close> yields one dollar sign,
  \<^verbatim>\<open>$&\<close> the matched text, \<^verbatim>\<open>$`\<close> the part of \<open>str\<close> before the match and
  \<^verbatim>\<open>$'\<close> the part after it. A dollar sign followed by digits or by \<^verbatim>\<open><\<close> refers
  to a capture that does not exist and is copied as it stands, like every other character.
\<close>

fun GetSubstitution :: "string \<Rightarrow> string \<Rightarrow> nat \<Rightarrow> string \<Rightarrow> string" where
  "GetSubstitution matched str position [] = []"
| "GetSubstitution matched str position [c] = [c]"
| "GetSubstitution matched str position (c # d # rest) =
     (if c = CHR ''$'' \<and> d = CHR ''$'' then
        CHR ''$'' # GetSubstitution matched str position rest
      else if c = CHR ''$'' \<and> d = CHR 0x60 then
        take position str @ GetSubstitution matched str position rest
      else if c = CHR ''$'' \<and> d = CHR ''&'' then
        matched @ GetSubstitution matched str position rest
      else if c = CHR ''$'' \<and> d = CHR 0x27 then
        drop (min (position + length matched) (length str)) str
          @ GetSubstitution matched str position rest
      else c # GetSubstitution matched str position (d # rest))"

subsection \<open>String.prototype.replaceAll\<close>

text \<open>
  The match positions are collected first: the search restarts \<open>advanceBy\<close> code units
  after each match, where \<open>advanceBy = max 1 searchLength\<close>, so matches do not overlap
  and an empty pattern matches once at every index.
\<close>

function matchPositions :: "string \<Rightarrow> string \<Rightarrow> nat \<Rightarrow> nat list" where
  "matchPositions str searchString fromIndex =
     (case StringIndexOf str searchString fromIndex of
        None \<Rightarrow> []
      | Some p \<Rightarrow> p # matchPositions str searchString (p + max 1 (length searchString)))"
  by pat_completeness auto

termination matchPositions
proof (relation "measure (\<lambda>(str, searchString, fromIndex). Suc (length str) - fromIndex)")
  show "wf (measure (\<lambda>(str, searchString, fromIndex). Suc (length str) - fromIndex))"
    by simp
next
  fix str searchString :: string and fromIndex p :: nat
  assume "StringIndexOf str searchString fromIndex = Some p"
  then have "p \<in> set [fromIndex ..< Suc (length str) - length searchString]"
    unfolding StringIndexOf_def by (auto simp: find_Some_iff)
  then have "fromIndex \<le> p" and "p < Suc (length str)"
    by auto
  then show "((str, searchString, p + max 1 (length searchString)), (str, searchString, fromIndex))
      \<in> measure (\<lambda>(str, searchString, fromIndex). Suc (length str) - fromIndex)"
    by auto
qed

declare matchPositions.simps [simp del]

text \<open>
  The result is then assembled from the preserved pieces between the matches and one
  substitution per match; \<open>endOfLastMatch\<close> and \<open>result\<close> are the loop variables.
\<close>

fun replaceAll_build :: "string \<Rightarrow> string \<Rightarrow> string \<Rightarrow> nat list \<Rightarrow> nat \<Rightarrow> string \<Rightarrow> string" where
  "replaceAll_build str searchString replaceValue [] endOfLastMatch result =
     (if endOfLastMatch < length str then result @ drop endOfLastMatch str else result)"
| "replaceAll_build str searchString replaceValue (p # ps) endOfLastMatch result =
     (let preserved = take (p - endOfLastMatch) (drop endOfLastMatch str);
          replacement = GetSubstitution searchString str p replaceValue
      in replaceAll_build str searchString replaceValue ps (p + length searchString)
           (result @ preserved @ replacement))"

definition replaceAll :: "string \<Rightarrow> string \<Rightarrow> string \<Rightarrow> string" where
  "replaceAll str searchString replaceValue =
     replaceAll_build str searchString replaceValue (matchPositions str searchString 0) 0 []"

section \<open>The result transformation\<close>

record ocr_response =
  math_text :: string
  latex_maths :: "string list"

definition span_template :: "string \<Rightarrow> string" where
  "span_template latex = ''<span class='' @ [CHR 0x22] @ ''math-tex'' @ [CHR 0x22] @ ''>'' @ latex @ ''</span>''"

fun wrap_loop :: "string list \<Rightarrow> string \<Rightarrow> string" where
  "wrap_loop [] result = result"
| "wrap_loop (latex # rest) result =
     wrap_loop rest (replaceAll result latex (span_template latex))"

definition transform_result :: "ocr_response \<Rightarrow> string" where
  "transform_result data =
     (let latexes = latex_maths data;
          result = math_text data;
          result = wrap_loop (spread_new_Set latexes) result
      in ''<p>'' @ result @ ''</p>'')"


section \<open>Errors, HTTP replies and requests\<close>

text \<open>
  A JavaScript error value has a name and a message; \<^verbatim>\<open>String(error)\<close>, which both
  \<^verbatim>\<open>window.alert(error)\<close> and \<^verbatim>\<open>new Error(error)\<close> apply to their argument,
  is \<^verbatim>\<open>Error.prototype.toString\<close>.
\<close>

datatype js_error = JsError (error_name: string) (error_message: string)

fun error_toString :: "js_error \<Rightarrow> string" where
  "error_toString (JsError name msg) =
     (if name = [] then msg else if msg = [] then name else name @ '': '' @ msg)"

definition new_Error :: "string \<Rightarrow> js_error" where
  "new_Error msg = JsError ''Error'' msg"

text \<open>
  A status code inside a template literal is rendered by \<^verbatim>\<open>Number.prototype.toString\<close>:
  for a natural number, its decimal digits.
\<close>

definition decimal_digit :: "nat \<Rightarrow> char" where
  "decimal_digit d = ''0123456789'' ! d"

fun Number_toString :: "nat \<Rightarrow> string" where
  "Number_toString n =
     (if 10 \<le> n then Number_toString (n div 10) @ [decimal_digit (n mod 10)]
      else [decimal_digit n])"

declare Number_toString.simps [simp del]

type_synonym blob = "nat list"

text \<open>\<^verbatim>\<open>response.ok\<close> of the Fetch API: the status is in the range 200 to 299.\<close>

definition response_ok :: "nat \<Rightarrow> bool" where
  "response_ok status = (200 \<le> status \<and> status \<le> 299)"

text \<open>
  What the network hands back for the download: \<^verbatim>\<open>fetch\<close> rejects, or it resolves
  with a response, whose body \<^verbatim>\<open>response.blob()\<close> reads (or fails to read).
\<close>

datatype download_reply =
    FetchRejected js_error
  | FetchResponse nat "js_error + blob"

text \<open>
  What the network hands back for the recognition request. \<^verbatim>\<open>response.json()\<close> either
  rejects or yields an object; of that object the code reads \<^verbatim>\<open>detail\<close> (absent:
  \<^verbatim>\<open>undefined\<close>) and the two fields of a recognition result. A body without these
  fields makes the reading code throw; \<open>Inl\<close> holds that error.
\<close>

record json_object =
  detail :: "string option"
  payload :: "js_error + ocr_response"

datatype ocr_reply =
    PostRejected js_error
  | PostResponse nat "js_error + json_object"

datatype http_method = GET | POST

record form_data_part =
  part_name :: string
  part_blob :: blob
  part_filename :: string

record request =
  req_method :: http_method
  req_url :: string
  req_body :: "form_data_part list"

definition ocr_endpoint :: string where
  "ocr_endpoint = ''https://internal-quizz.giainhanh.io/api/paper-exams/ocr-image''"

text \<open>
  \<^verbatim>\<open>_downloadImage\<close> (lines 263-271), given the reply to its \<^verbatim>\<open>fetch(url)\<close>.
\<close>

fun downloadImage :: "download_reply \<Rightarrow> js_error + blob" where
  "downloadImage (FetchRejected e) = Inl e"
| "downloadImage (FetchResponse status body) =
     (if \<not> response_ok status then
        Inl (new_Error ('' Error downloading image. Status: '' @ Number_toString status @ '' ''))
      else body)"

text \<open>
  \<^verbatim>\<open>_sendFormData\<close> (lines 273-289), given the reply to its \<^verbatim>\<open>fetch\<close>. Every
  rejection of the chain passes through the final \<^verbatim>\<open>catch\<close>, which throws
  \<^verbatim>\<open>new Error(error)\<close>.
\<close>

definition detail_text :: "json_object \<Rightarrow> string" where
  "detail_text errorData = (case detail errorData of None \<Rightarrow> ''undefined'' | Some d \<Rightarrow> d)"

definition http_error_message :: "nat \<Rightarrow> json_object \<Rightarrow> string" where
  "http_error_message status errorData =
     ''HTTP error! Status: '' @ Number_toString status @ '', Message: '' @ detail_text errorData"

fun sendFormData :: "ocr_reply \<Rightarrow> js_error + (js_error + ocr_response)" where
  "sendFormData (PostRejected e) = Inl (new_Error (error_toString e))"
| "sendFormData (PostResponse status body) =
     (if \<not> response_ok status then
        (case body of
           Inl e \<Rightarrow> Inl (new_Error (error_toString e))
         | Inr errorData \<Rightarrow>
             Inl (new_Error (error_toString (new_Error (http_error_message status errorData)))))
      else
        (case body of
           Inl e \<Rightarrow> Inl (new_Error (error_toString e))
         | Inr data \<Rightarrow> Inr (payload data)))"

section \<open>The UI plugin\<close>

text \<open>
  The contextual balloon of the host framework keeps a stack of views; the view on top
  is the visible one. The head of the list is the top of the stack. The plugin calls
  \<^verbatim>\<open>add\<close> and \<^verbatim>\<open>remove\<close> only behind its own membership checks, so the
  errors the framework raises for a view that is already present or is absent do not
  arise, and the operations are modelled as a push and a deletion.
\<close>

datatype view = FormView | OtherView nat

definition visibleView :: "view list \<Rightarrow> view option" where
  "visibleView b = (case b of [] \<Rightarrow> None | v # vs \<Rightarrow> Some v)"

definition hasView :: "view list \<Rightarrow> view \<Rightarrow> bool" where
  "hasView b v = (v \<in> set b)"

definition balloon_add :: "view \<Rightarrow> view list \<Rightarrow> view list" where
  "balloon_add v b = v # b"

definition balloon_remove :: "view \<Rightarrow> view list \<Rightarrow> view list" where
  "balloon_remove v b = removeAll v b"

datatype focus = FormField | FormSaveButton | FormCancelButton | EditingView | Elsewhere

text \<open>
  The state the plugin reads and writes. \<open>command_value\<close>, \<open>wrapper_found\<close> and
  \<open>mathjax_error\<close> belong to the surroundings: the value of the registered command, whether
  the input element has an ancestor of class \<^verbatim>\<open>ck-labeled-field-view\<close>, and the error
  that \<^verbatim>\<open>window.MathJax.typeset\<close> throws, if it throws. \<open>executed\<close> lists the
  \<open>newValue\<close> arguments of the calls \<^verbatim>\<open>editor.execute('imageOCRLatex', ...)\<close>,
  \<open>alerts\<close> the texts shown by \<^verbatim>\<open>window.alert\<close>, \<open>requests\<close> the requests sent.
  The two counters hold the number of requests whose reply is outstanding.
\<close>

record ui_state =
  command_value :: string
  form_created :: bool
  balloon :: "view list"
  field_value :: string
  element_value :: string
  field_selected :: bool
  wrapper_found :: bool
  preview :: "string option"
  mathjax_error :: "js_error option"
  css_transitions :: bool
  focus :: focus
  executed :: "string list"
  alerts :: "string list"
  requests :: "request list"
  pending_downloads :: nat
  pending_posts :: nat

definition isVisible :: "ui_state \<Rightarrow> bool" where
  "isVisible st = (form_created st \<and> visibleView (balloon st) = Some FormView)"

definition isInBalloon :: "ui_state \<Rightarrow> bool" where
  "isInBalloon st = (form_created st \<and> hasView (balloon st) FormView)"

definition isFocused :: "ui_state \<Rightarrow> bool" where
  "isFocused st = (focus st \<in> {FormField, FormSaveButton, FormCancelButton})"

definition window_alert :: "js_error \<Rightarrow> ui_state \<Rightarrow> ui_state" where
  "window_alert e st = st\<lparr>alerts := alerts st @ [error_toString e]\<rparr>"

definition editor_execute :: "string \<Rightarrow> ui_state \<Rightarrow> ui_state" where
  "editor_execute newValue st = st\<lparr>executed := executed st @ [newValue]\<rparr>"

text \<open>\<^verbatim>\<open>_hideForm\<close> (lines 245-261).\<close>

definition hideForm :: "bool \<Rightarrow> ui_state \<Rightarrow> ui_state" where
  "hideForm focusEditable st =
     (if \<not> isInBalloon st then st
      else
        let st1 = (if isFocused st then st\<lparr>focus := FormSaveButton\<rparr> else st);
            st2 = st1\<lparr>balloon := balloon_remove FormView (balloon st1)\<rparr>
        in if focusEditable then st2\<lparr>focus := EditingView\<rparr> else st2)"

text \<open>
  \<^verbatim>\<open>_createForm\<close> (lines 94-152) stores the balloon and the rendered form in the
  plugin and registers the listeners below; from then on \<open>form_created\<close> holds.
\<close>

definition createForm :: "ui_state \<Rightarrow> ui_state" where
  "createForm st = st\<lparr>form_created := True\<rparr>"

definition on_submit :: "ui_state \<Rightarrow> ui_state" where
  "on_submit st = hideForm True (editor_execute (element_value st) st)"

definition on_cancel :: "ui_state \<Rightarrow> ui_state" where
  "on_cancel st = hideForm True st"

definition on_Esc :: "ui_state \<Rightarrow> ui_state" where
  "on_Esc st = hideForm True st"

text \<open>
  The listener of the editor's \<^verbatim>\<open>update\<close> event; \<open>imageSelected\<close> is the answer of
  \<^verbatim>\<open>imageUtils.getClosestSelectedImageWidget\<close>. Repositioning moves the balloon on
  the screen and leaves this state as it is.
\<close>

definition on_update :: "bool \<Rightarrow> ui_state \<Rightarrow> ui_state" where
  "on_update imageSelected st =
     (if \<not> imageSelected then hideForm True st
      else if isVisible st then st
      else st)"

text \<open>
  A mouse press outside the balloon's element: \<^verbatim>\<open>clickOutsideHandler\<close> runs the
  callback only while the activator \<^verbatim>\<open>() => this._isVisible\<close> answers true.
\<close>

definition on_click_outside :: "ui_state \<Rightarrow> ui_state" where
  "on_click_outside st = (if isVisible st then hideForm False st else st)"

text \<open>
  \<^verbatim>\<open>_showForm\<close> (lines 159-237) up to the point where it has started the download
  and returns.
\<close>

definition showForm :: "ui_state \<Rightarrow> ui_state" where
  "showForm st =
     (if isVisible st then st
      else
        let st1 = (if \<not> form_created st then createForm st else st);
            imgUrl = command_value st1
        in st1\<lparr>requests := requests st1 @ [\<lparr>req_method = GET, req_url = imgUrl, req_body = []\<rparr>],
               pending_downloads := Suc (pending_downloads st1)\<rparr>)"

text \<open>
  The callback of the recognition promise (lines 182-227). \<open>js_or\<close> is the operator
  \<^verbatim>\<open>||\<close> on strings: the empty string is the one falsy string, and for it the right
  operand is taken. An error thrown on the way leaves
  what was done before it in place and reaches the \<^verbatim>\<open>catch\<close> of line 228.
\<close>

definition js_truthy :: "string \<Rightarrow> bool" where
  "js_truthy a = (a \<noteq> [])"

definition js_or :: "string \<Rightarrow> string \<Rightarrow> string" where
  "js_or a b = (if js_truthy a then a else b)"

definition populate_field :: "string \<Rightarrow> ui_state \<Rightarrow> ui_state" where
  "populate_field result st =
     st\<lparr>field_value := js_or result [], element_value := js_or result [],
        field_selected := True, css_transitions := True\<rparr>"

definition on_ocr_data :: "js_error + ocr_response \<Rightarrow> ui_state \<Rightarrow> ui_state" where
  "on_ocr_data data st =
     (let st1 = st\<lparr>css_transitions := False\<rparr>;
          st2 = (if \<not> isInBalloon st1
                 then st1\<lparr>balloon := balloon_add FormView (balloon st1)\<rparr> else st1)
      in case data of
           Inl e \<Rightarrow> window_alert e st2
         | Inr d \<Rightarrow>
             let result = transform_result d in
             if wrapper_found st2 then
               let st3 = st2\<lparr>preview := Some result\<rparr> in
               (case mathjax_error st3 of
                  Some e \<Rightarrow> window_alert e st3
                | None \<Rightarrow> populate_field result st3)
             else populate_field result st2)"

text \<open>The two continuations of \<^verbatim>\<open>_showForm\<close>, run when the reply of a request arrives.\<close>

definition download_settled :: "download_reply \<Rightarrow> ui_state \<Rightarrow> ui_state" where
  "download_settled reply st =
     (let st1 = st\<lparr>pending_downloads := pending_downloads st - 1\<rparr> in
      case downloadImage reply of
        Inl error \<Rightarrow> window_alert error st1
      | Inr blob \<Rightarrow>
          let formData = [\<lparr>part_name = ''file'', part_blob = blob, part_filename = ''image.jpg''\<rparr>]
          in st1\<lparr>requests := requests st1 @
                   [\<lparr>req_method = POST, req_url = ocr_endpoint, req_body = formData\<rparr>],
                 pending_posts := Suc (pending_posts st1)\<rparr>)"

definition ocr_settled :: "ocr_reply \<Rightarrow> ui_state \<Rightarrow> ui_state" where
  "ocr_settled reply st =
     (let st1 = st\<lparr>pending_posts := pending_posts st - 1\<rparr> in
      case sendFormData reply of
        Inl error \<Rightarrow> window_alert error st1
      | Inr data \<Rightarrow> on_ocr_data data st1)"

subsection \<open>Events\<close>

text \<open>
  The plugin runs on the browser's event loop: one event is handled to its end before
  the next. A reply can only arrive for a request that is outstanding, and the form's
  listeners exist only once the form has been created. The last five events are moves
  of the surroundings: the user typing into the visible field, the focus moving, the
  command refreshing its value, and other plugins using the balloon.
\<close>

datatype event =
    ButtonExecute
  | DownloadSettled download_reply
  | OcrSettled ocr_reply
  | Submit
  | Cancel
  | EscKey
  | ClickOutside
  | Update bool
  | TypeText string
  | FocusMoved focus
  | CommandValue string
  | OtherAdd nat
  | OtherRemove nat

fun step :: "ui_state \<Rightarrow> event \<Rightarrow> ui_state" where
  "step st ButtonExecute = showForm st"
| "step st (DownloadSettled reply) =
     (if 0 < pending_downloads st then download_settled reply st else st)"
| "step st (OcrSettled reply) =
     (if 0 < pending_posts st then ocr_settled reply st else st)"
| "step st Submit = (if form_created st then on_submit st else st)"
| "step st Cancel = (if form_created st then on_cancel st else st)"
| "step st EscKey = (if form_created st then on_Esc st else st)"
| "step st ClickOutside = (if form_created st then on_click_outside st else st)"
| "step st (Update imageSelected) =
     (if form_created st then on_update imageSelected st else st)"
| "step st (TypeText s) = (if isVisible st then st\<lparr>element_value := s\<rparr> else st)"
| "step st (FocusMoved f) = st\<lparr>focus := f\<rparr>"
| "step st (CommandValue v) = st\<lparr>command_value := v\<rparr>"
| "step st (OtherAdd n) =
     (if hasView (balloon st) (OtherView n) then st
      else st\<lparr>balloon := balloon_add (OtherView n) (balloon st)\<rparr>)"
| "step st (OtherRemove n) =
     (if hasView (balloon st) (OtherView n)
      then st\<lparr>balloon := balloon_remove (OtherView n) (balloon st)\<rparr> else st)"

definition run :: "event list \<Rightarrow> ui_state \<Rightarrow> ui_state" where
  "run evs st = foldl step st evs"

text \<open>
  The plugin after \<^verbatim>\<open>init\<close>: no form, nothing requested, and the form view in no
  balloon.
\<close>

definition initial :: "ui_state \<Rightarrow> bool" where
  "initial st = (\<not> form_created st \<and> \<not> hasView (balloon st) FormView
     \<and> pending_downloads st = 0 \<and> pending_posts st = 0)"

definition fresh_state :: "string \<Rightarrow> ui_state" where
  "fresh_state url =
     \<lparr>command_value = url, form_created = False, balloon = [], field_value = [],
      element_value = [], field_selected = False, wrapper_found = True, preview = None,
      mathjax_error = None, css_transitions = True, focus = EditingView, executed = [],
      alerts = [], requests = [], pending_downloads = 0, pending_posts = 0\<rparr>"


section \<open>Reference definitions\<close>

text \<open>
  Two structurally recursive functions against which the index-based operations above are
  checked: the elements of a list in the order of their first appearance, and what one
  call of \<^verbatim>\<open>replaceAll\<close> with a fixed replacement text yields, namely every occurrence of
  the pattern replaced from left to right, occurrences not overlapping.
\<close>

fun first_appearances :: "'a list \<Rightarrow> 'a list \<Rightarrow> 'a list" where
  "first_appearances seen [] = []"
| "first_appearances seen (x # xs) =
     (if x \<in> set seen then first_appearances seen xs
      else x # first_appearances (x # seen) xs)"

fun replace_every_occurrence :: "string \<Rightarrow> string \<Rightarrow> string \<Rightarrow> string" where
  "replace_every_occurrence pat rep [] = (if pat = [] then rep else [])"
| "replace_every_occurrence pat rep (c # cs) =
     (if pat = [] then rep @ c # replace_every_occurrence pat rep cs
      else if take (length pat) (c # cs) = pat
        then rep @ replace_every_occurrence pat rep (drop (length pat) (c # cs))
      else c # replace_every_occurrence pat rep cs)"

text \<open>What follows the replacement made for the empty fragment at the head of a text.\<close>

definition after_empty_match :: "string \<Rightarrow> string \<Rightarrow> string" where
  "after_empty_match rep s =
     (case s of [] \<Rightarrow> [] | c # cs \<Rightarrow> c # replace_every_occurrence [] rep cs)"

text \<open>
  What holds of the balloon in every state the plugin reaches: the form view is there at
  most once, and it is there, or a reply is outstanding, only after the form was created.
\<close>

definition balloon_inv :: "ui_state \<Rightarrow> bool" where
  "balloon_inv st = (count_list (balloon st) FormView \<le> 1
     \<and> (hasView (balloon st) FormView \<or> 0 < pending_downloads st \<or> 0 < pending_posts st
          \<longrightarrow> form_created st))"

subsection \<open>Concrete states and replies for the examples\<close>

definition shown_state :: ui_state where
  "shown_state = (fresh_state ''http://host/image.png'')
     \<lparr>form_created := True, balloon := [FormView, OtherView 0],
      field_value := ''<p>x</p>'', element_value := ''typed text'', focus := FormField\<rparr>"

definition loading_state :: ui_state where
  "loading_state = (fresh_state ''http://host/image.png'')
     \<lparr>form_created := True, pending_downloads := 1, pending_posts := 1\<rparr>"

definition download_ok :: download_reply where
  "download_ok = FetchResponse 200 (Inr [255, 216, 255])"

definition download_not_found :: download_reply where
  "download_not_found = FetchResponse 404 (Inr [])"

definition ocr_ok :: "ocr_response \<Rightarrow> ocr_reply" where
  "ocr_ok d = PostResponse 200 (Inr \<lparr>detail = None, payload = Inr d\<rparr>)"

definition ocr_unprocessable :: ocr_reply where
  "ocr_unprocessable =
     PostResponse 422 (Inr \<lparr>detail = Some ''bad image'', payload = Inl (JsError ''TypeError'' [])\<rparr>)"

definition solve_x :: ocr_response where
  "solve_x = \<lparr>math_text = ''solve x'', latex_maths = [''x^2'']\<rparr>"

definition ocr_malformed :: ocr_reply where
  "ocr_malformed =
     PostResponse 200 (Inr \<lparr>detail = None, payload = Inl (JsError ''TypeError'' ''no data'')\<rparr>)"

definition open_cycle :: "ocr_response \<Rightarrow> event list" where
  "open_cycle d = [ButtonExecute, DownloadSettled download_ok, OcrSettled (ocr_ok d)]"

definition reopen_malformed :: "event list" where
  "reopen_malformed =
     open_cycle solve_x
     @ [TypeText ''stale'', Cancel, ButtonExecute, DownloadSettled download_ok,
        OcrSettled ocr_malformed]"

definition reopen_same :: "event list" where
  "reopen_same = open_cycle solve_x @ [TypeText ''stale'', Cancel] @ open_cycle solve_x"

definition typeset_throws_state :: ui_state where
  "typeset_throws_state = (fresh_state ''http://host/image.png'')
     \<lparr>mathjax_error := Some (JsError ''TypeError'' ''no typeset'')\<rparr>"

definition overlapping_cycles :: "event list" where
  "overlapping_cycles =
     [ButtonExecute, ButtonExecute, DownloadSettled download_ok, DownloadSettled download_ok,
      OcrSettled (ocr_ok solve_x), OcrSettled (ocr_ok solve_x), Cancel,
      ButtonExecute, DownloadSettled download_ok, OcrSettled (ocr_ok solve_x)]"


section \<open>Properties of the string operations\<close>

subsection \<open>The set of fragments\<close>

lemma set_add_present: "x \<in> set entries \<Longrightarrow> set_add entries x = entries"
  by (simp add: set_add.simps)

lemma set_add_absent: "x \<notin> set entries \<Longrightarrow> set_add entries x = entries @ [x]"
  by (simp add: set_add.simps)

lemma first_appearances_seen:
  "set seen = set seen' \<Longrightarrow> first_appearances seen xs = first_appearances seen' xs"
proof (induction xs arbitrary: seen seen')
  case Nil
  show ?case by simp
next
  case (Cons x xs)
  have "set (x # seen) = set (x # seen')" using Cons.prems by simp
  from Cons.IH [OF this] Cons.IH [OF Cons.prems] show ?case
    using Cons.prems by simp
qed

lemma foldl_set_add_first_appearances:
  "foldl set_add entries xs = entries @ first_appearances entries xs"
proof (induction xs arbitrary: entries)
  case Nil
  show ?case by simp
next
  case (Cons x xs)
  show ?case
  proof (cases "x \<in> set entries")
    case True
    then show ?thesis by (simp add: set_add_present Cons.IH)
  next
    case False
    have "first_appearances (entries @ [x]) xs = first_appearances (x # entries) xs"
      by (rule first_appearances_seen) auto
    then show ?thesis using False by (simp add: set_add_absent Cons.IH)
  qed
qed

lemma spread_new_Set_first_appearances: "spread_new_Set xs = first_appearances [] xs"
  by (simp add: spread_new_Set_def foldl_set_add_first_appearances)

subsection \<open>Substitution without dollar signs\<close>

lemma GetSubstitution_literal:
  "CHR ''$'' \<notin> set template \<Longrightarrow> GetSubstitution matched str position template = template"
  by (induction matched str position template rule: GetSubstitution.induct) auto

lemma span_template_dollar:
  "CHR ''$'' \<notin> set latex \<Longrightarrow> CHR ''$'' \<notin> set (span_template latex)"
  by (simp add: span_template_def)

subsection \<open>Occurrences and the index search\<close>

lemma occurs_at_drop: "occurs_at (drop k str) pat i = occurs_at str pat (k + i)"
  by (simp add: occurs_at_def add.commute)

lemma occurs_at_Cons_Suc: "occurs_at (c # cs) pat (Suc i) = occurs_at cs pat i"
  by (simp add: occurs_at_def)

lemma occurs_at_length:
  assumes "occurs_at str pat i"
  shows "i + length pat \<le> length str \<or> pat = []"
proof -
  have "length (take (length pat) (drop i str)) = length pat"
    using assms by (simp add: occurs_at_def)
  then have "length pat \<le> length str - i" by simp
  then show ?thesis
    by (cases "pat = []")
      (auto simp: length_greater_0_conv [symmetric] simp del: length_greater_0_conv)
qed

lemma occurs_at_sublist:
  assumes "occurs_at str pat i"
  shows "sublist pat str"
proof -
  have "drop i str = take (length pat) (drop i str) @ drop (length pat) (drop i str)"
    by (simp only: append_take_drop_id)
  then have "drop i str = pat @ drop (length pat) (drop i str)"
    using assms by (simp add: occurs_at_def)
  then have "str = take i str @ pat @ drop (length pat) (drop i str)"
    by (metis append_take_drop_id)
  then show ?thesis unfolding sublist_def by blast
qed

lemma StringIndexOf_bounds:
  assumes "StringIndexOf str searchValue fromIndex = Some p"
  shows "fromIndex \<le> p" and "occurs_at str searchValue p"
proof -
  from assms have "p \<in> set [fromIndex ..< Suc (length str) - length searchValue]"
    and occ: "occurs_at str searchValue p"
    unfolding StringIndexOf_def by (auto simp: find_Some_iff)
  then show "fromIndex \<le> p" by auto
  from occ show "occurs_at str searchValue p" .
qed

lemma StringIndexOf_None_iff:
  "StringIndexOf str pat k = None \<longleftrightarrow>
     (\<forall>i. k \<le> i \<and> i + length pat \<le> length str \<longrightarrow> \<not> occurs_at str pat i)"
  unfolding StringIndexOf_def find_None_iff by auto

lemma StringIndexOf_Some_first:
  assumes "StringIndexOf str pat k = Some p"
  shows "\<forall>i. k \<le> i \<and> i < p \<longrightarrow> \<not> occurs_at str pat i"
proof -
  let ?range = "[k ..< Suc (length str) - length pat]"
  from assms obtain n where n: "n < length ?range" "?range ! n = p"
    "\<forall>m<n. \<not> occurs_at str pat (?range ! m)"
    unfolding StringIndexOf_def find_Some_iff by blast
  from n(1,2) have p: "p = k + n" by simp
  show ?thesis
  proof (intro allI impI)
    fix i assume i: "k \<le> i \<and> i < p"
    then have "i - k < n" using p by auto
    with n(3) have "\<not> occurs_at str pat (?range ! (i - k))" by blast
    moreover have "?range ! (i - k) = k + (i - k)"
      using i n(1) p by (intro nth_upt) (simp, arith)
    moreover have "k + (i - k) = i" using i by simp
    ultimately show "\<not> occurs_at str pat i" by simp
  qed
qed

lemma StringIndexOf_absent: "\<not> sublist pat str \<Longrightarrow> StringIndexOf str pat k = None"
  unfolding StringIndexOf_def by (auto simp: find_None_iff dest: occurs_at_sublist)

lemma StringIndexOf_empty:
  "StringIndexOf str [] k = (if k \<le> length str then Some k else None)"
proof (cases "k \<le> length str")
  case True
  then have "[k ..< Suc (length str)] = k # [Suc k ..< Suc (length str)]"
    by (simp add: upt_conv_Cons)
  then show ?thesis using True by (simp add: StringIndexOf_def occurs_at_def)
next
  case False
  then show ?thesis by (simp add: StringIndexOf_def)
qed

lemma matchPositions_empty:
  "matchPositions str [] k =
     (if k \<le> length str then k # matchPositions str [] (Suc k) else [])"
  by (subst matchPositions.simps) (simp add: StringIndexOf_empty)

subsection \<open>The index-based replacement computes the left-to-right replacement\<close>

lemma replace_every_skip:
  assumes "pat \<noteq> []" and "\<forall>i<j. \<not> occurs_at s pat i"
  shows "replace_every_occurrence pat rep s
           = take j s @ replace_every_occurrence pat rep (drop j s)"
  using assms(2)
proof (induction j arbitrary: s)
  case 0
  then show ?case by simp
next
  case (Suc j)
  show ?case
  proof (cases s)
    case Nil
    then show ?thesis using assms(1) by simp
  next
    case (Cons c cs)
    have "\<not> occurs_at s pat 0" using Suc.prems by blast
    then have no: "take (length pat) (c # cs) \<noteq> pat"
      by (simp add: occurs_at_def Cons)
    have "\<forall>i<j. \<not> occurs_at cs pat i"
      using Suc.prems Cons occurs_at_Cons_Suc by (metis Suc_less_eq)
    from Suc.IH [OF this] show ?thesis
      using no assms(1) Cons by simp
  qed
qed

lemma replace_every_hit:
  assumes "pat \<noteq> []" and "occurs_at s pat 0"
  shows "replace_every_occurrence pat rep s
           = rep @ replace_every_occurrence pat rep (drop (length pat) s)"
proof (cases s)
  case Nil
  then show ?thesis using assms by (simp add: occurs_at_def)
next
  case (Cons c cs)
  then show ?thesis using assms by (simp add: occurs_at_def)
qed

lemma replace_every_none:
  assumes "pat \<noteq> []"
    and "\<forall>i. i + length pat \<le> length s \<longrightarrow> \<not> occurs_at s pat i"
  shows "replace_every_occurrence pat rep s = s"
proof -
  have "\<forall>i<length s. \<not> occurs_at s pat i"
    using assms occurs_at_length by blast
  from replace_every_skip [OF assms(1) this, of rep] show ?thesis
    using assms(1) by simp
qed

lemma replaceAll_build_nonempty:
  assumes "pat \<noteq> []" and "\<forall>p. GetSubstitution pat str p template = rep"
  shows "replaceAll_build str pat template (matchPositions str pat k) k acc
           = acc @ replace_every_occurrence pat rep (drop k str)"
  using assms
proof (induction str pat k arbitrary: acc rule: matchPositions.induct)
  case (1 str pat k)
  have pos: "0 < length pat" using "1.prems"(1) by simp
  show ?case
  proof (cases "StringIndexOf str pat k")
    case None
    then have none: "\<forall>i. k \<le> i \<and> i + length pat \<le> length str \<longrightarrow> \<not> occurs_at str pat i"
      by (simp add: StringIndexOf_None_iff)
    have "\<forall>i. i + length pat \<le> length (drop k str) \<longrightarrow> \<not> occurs_at (drop k str) pat i"
    proof (intro allI impI)
      fix i
      assume "i + length pat \<le> length (drop k str)"
      then have "i + length pat \<le> length str - k" by simp
      with pos have "k \<le> k + i \<and> (k + i) + length pat \<le> length str" by arith
      with none have "\<not> occurs_at str pat (k + i)" by blast
      then show "\<not> occurs_at (drop k str) pat i" by (simp add: occurs_at_drop)
    qed
    with "1.prems"(1) have "replace_every_occurrence pat rep (drop k str) = drop k str"
      by (rule replace_every_none)
    then show ?thesis
      using None by (simp add: matchPositions.simps [of str pat k])
  next
    case (Some p)
    note bounds = StringIndexOf_bounds [OF Some]
    have len: "max 1 (length pat) = length pat" "max (Suc 0) (length pat) = length pat"
      using "1.prems"(1) by (cases pat; simp)+
    have first: "\<forall>i<p - k. \<not> occurs_at (drop k str) pat i"
      using StringIndexOf_Some_first [OF Some] by (auto simp: occurs_at_drop)
    have hit: "occurs_at (drop p str) pat 0"
      using bounds(2) by (simp add: occurs_at_drop)
    have "replace_every_occurrence pat rep (drop k str)
        = take (p - k) (drop k str)
          @ replace_every_occurrence pat rep (drop (p - k) (drop k str))"
      using "1.prems"(1) first by (rule replace_every_skip)
    also have "drop (p - k) (drop k str) = drop p str"
      using bounds(1) by simp
    also have "replace_every_occurrence pat rep (drop p str)
        = rep @ replace_every_occurrence pat rep (drop (length pat) (drop p str))"
      using "1.prems"(1) hit by (rule replace_every_hit)
    also have "drop (length pat) (drop p str) = drop (p + length pat) str"
      by (simp add: add.commute)
    finally have spec: "replace_every_occurrence pat rep (drop k str)
        = take (p - k) (drop k str) @ rep
          @ replace_every_occurrence pat rep (drop (p + length pat) str)" .
    have IH: "replaceAll_build str pat template
          (matchPositions str pat (p + length pat)) (p + length pat) acc'
        = acc' @ replace_every_occurrence pat rep (drop (p + length pat) str)" for acc'
      using "1.IH" [OF Some "1.prems"] len by simp
    show ?thesis
      using Some "1.prems"(2) IH spec
      by (simp add: matchPositions.simps [of str pat k] len)
  qed
qed

lemma replace_every_empty:
  "replace_every_occurrence [] rep s = rep @ after_empty_match rep s"
  by (cases s) (simp_all add: after_empty_match_def)

lemma replaceAll_build_empty:
  assumes "\<forall>p. GetSubstitution [] str p template = rep" and "k \<le> length str"
  shows "replaceAll_build str [] template (matchPositions str [] (Suc k)) k acc
           = acc @ after_empty_match rep (drop k str)"
  using assms(2)
proof (induction "length str - k" arbitrary: k acc)
  case 0
  then have k: "k = length str" by simp
  have "matchPositions str [] (Suc k) = []"
    using k by (subst matchPositions_empty) simp
  then show ?case using k by (simp add: after_empty_match_def)
next
  case (Suc n)
  then have k: "k < length str" by simp
  have pos: "matchPositions str [] (Suc k) = Suc k # matchPositions str [] (Suc (Suc k))"
    using k by (subst matchPositions_empty) simp
  have d: "drop k str = str ! k # drop (Suc k) str"
    using k by (simp add: Cons_nth_drop_Suc)
  have IH: "replaceAll_build str [] template (matchPositions str [] (Suc (Suc k))) (Suc k) acc'
      = acc' @ after_empty_match rep (drop (Suc k) str)" for acc'
    using Suc.hyps(1) [of "Suc k" acc'] Suc.hyps(2) k by simp
  show ?case
    using assms(1) IH by (simp add: pos d after_empty_match_def replace_every_empty)
qed

lemma replaceAll_constant:
  assumes "\<forall>p. GetSubstitution pat str p template = rep"
  shows "replaceAll str pat template = replace_every_occurrence pat rep str"
proof (cases "pat = []")
  case True
  have pos: "matchPositions str [] 0 = 0 # matchPositions str [] (Suc 0)"
    by (subst matchPositions_empty) simp
  from assms True have sub: "\<forall>p. GetSubstitution [] str p template = rep" by simp
  show ?thesis
    using sub replaceAll_build_empty [OF sub, of 0 rep] True
    by (simp add: replaceAll_def pos replace_every_empty)
next
  case False
  then show ?thesis
    using replaceAll_build_nonempty [OF False assms, of 0 "[]"] by (simp add: replaceAll_def)
qed

lemma replaceAll_literal:
  "CHR ''$'' \<notin> set template \<Longrightarrow>
     replaceAll str pat template = replace_every_occurrence pat template str"
  by (rule replaceAll_constant) (simp add: GetSubstitution_literal)

lemma replaceAll_absent:
  assumes "\<not> sublist searchString str"
  shows "replaceAll str searchString replaceValue = str"
proof -
  have "matchPositions str searchString 0 = []"
    using StringIndexOf_absent [OF assms] by (simp add: matchPositions.simps)
  then show ?thesis by (simp add: replaceAll_def)
qed

lemma set_first_appearances: "set (first_appearances seen xs) = set xs - set seen"
  by (induction xs arbitrary: seen) auto

lemma distinct_first_appearances: "distinct (first_appearances seen xs)"
  by (induction xs arbitrary: seen) (auto simp: set_first_appearances)

section \<open>Properties of the plugin\<close>

lemma isVisible_isInBalloon: "isVisible st \<Longrightarrow> isInBalloon st"
  by (auto simp: isVisible_def isInBalloon_def visibleView_def hasView_def split: list.splits)

lemma hideForm_removes: "\<not> isInBalloon (hideForm focusEditable st)"
  by (simp add: hideForm_def isInBalloon_def hasView_def balloon_remove_def Let_def)

lemma hideForm_hides: "\<not> isVisible (hideForm focusEditable st)"
  using hideForm_removes isVisible_isInBalloon by blast

lemma hideForm_executed: "executed (hideForm focusEditable st) = executed st"
  by (simp add: hideForm_def Let_def)

lemma hideForm_fields:
  "field_value (hideForm focusEditable st) = field_value st"
  "element_value (hideForm focusEditable st) = element_value st"
  "form_created (hideForm focusEditable st) = form_created st"
  "pending_downloads (hideForm focusEditable st) = pending_downloads st"
  "pending_posts (hideForm focusEditable st) = pending_posts st"
  by (simp_all add: hideForm_def Let_def)

lemma on_ocr_data_balloon:
  "balloon (on_ocr_data data st)
     = (if isInBalloon st then balloon st else FormView # balloon st)"
  by (auto simp: on_ocr_data_def Let_def populate_field_def window_alert_def isInBalloon_def
      balloon_add_def split: sum.splits option.splits)

lemma on_ocr_data_created: "form_created (on_ocr_data data st) = form_created st"
  by (auto simp: on_ocr_data_def Let_def populate_field_def window_alert_def
      split: sum.splits option.splits)

subsection \<open>The balloon invariant\<close>

lemma count_list_removeAll_same: "count_list (removeAll v b) v = 0"
  by (induction b) auto

lemma count_list_removeAll_other: "v \<noteq> w \<Longrightarrow> count_list (removeAll w b) v = count_list b v"
  by (induction b) auto

lemma count_list_absent: "v \<notin> set b \<Longrightarrow> count_list b v = 0"
  by (induction b) auto

lemma hideForm_inv: "balloon_inv st \<Longrightarrow> balloon_inv (hideForm focusEditable st)"
  by (auto simp: balloon_inv_def hideForm_def Let_def balloon_remove_def hasView_def
      count_list_removeAll_same isInBalloon_def)

lemma showForm_inv: "balloon_inv st \<Longrightarrow> balloon_inv (showForm st)"
  by (auto simp: balloon_inv_def showForm_def Let_def createForm_def hasView_def)

lemma download_settled_inv:
  "balloon_inv st \<Longrightarrow> 0 < pending_downloads st \<Longrightarrow> balloon_inv (download_settled reply st)"
  by (auto simp: balloon_inv_def download_settled_def Let_def window_alert_def
      split: sum.splits)

lemma on_ocr_data_inv:
  "balloon_inv st \<Longrightarrow> form_created st \<Longrightarrow> balloon_inv (on_ocr_data data st)"
  by (auto simp: balloon_inv_def on_ocr_data_def Let_def window_alert_def populate_field_def
      isInBalloon_def hasView_def balloon_add_def count_list_absent
      split: sum.splits option.splits)

lemma ocr_settled_inv:
  assumes inv: "balloon_inv st" and pending: "0 < pending_posts st"
  shows "balloon_inv (ocr_settled reply st)"
proof -
  let ?st1 = "st\<lparr>pending_posts := pending_posts st - 1\<rparr>"
  from inv pending have created: "form_created ?st1" and inv1: "balloon_inv ?st1"
    by (auto simp: balloon_inv_def)
  show ?thesis
  proof (cases "sendFormData reply")
    case (Inl e)
    then show ?thesis using inv1
      by (auto simp: ocr_settled_def Let_def window_alert_def balloon_inv_def)
  next
    case (Inr data)
    then show ?thesis using on_ocr_data_inv [OF inv1 created]
      by (simp add: ocr_settled_def Let_def)
  qed
qed

lemma step_inv:
  assumes inv: "balloon_inv st"
  shows "balloon_inv (step st ev)"
proof (cases ev)
  case ButtonExecute
  then show ?thesis using inv by (simp add: showForm_inv)
next
  case (DownloadSettled reply)
  then show ?thesis using inv by (simp add: download_settled_inv)
next
  case (OcrSettled reply)
  then show ?thesis using inv by (simp add: ocr_settled_inv)
next
  case Submit
  have "balloon_inv (editor_execute (element_value st) st)"
    using inv by (simp add: balloon_inv_def editor_execute_def)
  then show ?thesis using Submit inv by (simp add: on_submit_def hideForm_inv)
next
  case Cancel
  then show ?thesis using inv by (simp add: on_cancel_def hideForm_inv)
next
  case EscKey
  then show ?thesis using inv by (simp add: on_Esc_def hideForm_inv)
next
  case ClickOutside
  then show ?thesis using inv by (simp add: on_click_outside_def hideForm_inv)
next
  case (Update imageSelected)
  then show ?thesis using inv by (simp add: on_update_def hideForm_inv)
next
  case (TypeText s)
  then show ?thesis using inv by (simp add: balloon_inv_def)
next
  case (FocusMoved f)
  then show ?thesis using inv by (simp add: balloon_inv_def)
next
  case (CommandValue v)
  then show ?thesis using inv by (simp add: balloon_inv_def)
next
  case (OtherAdd n)
  then show ?thesis using inv by (simp add: balloon_inv_def balloon_add_def hasView_def)
next
  case (OtherRemove n)
  then show ?thesis using inv
    by (simp add: balloon_inv_def balloon_remove_def hasView_def count_list_removeAll_other)
qed

lemma run_inv: "balloon_inv st \<Longrightarrow> balloon_inv (run evs st)"
  unfolding run_def by (induction evs arbitrary: st) (simp_all add: step_inv)

lemma initial_inv: "initial st \<Longrightarrow> balloon_inv st"
  by (simp add: initial_def balloon_inv_def hasView_def count_list_absent)

subsection \<open>The example states\<close>

lemma shown_state_visible: "isVisible shown_state"
  by (simp add: shown_state_def fresh_state_def isVisible_def visibleView_def)

lemma loading_state_pending:
  "0 < pending_downloads loading_state" "0 < pending_posts loading_state"
  "form_created loading_state"
  by (simp_all add: loading_state_def fresh_state_def)

lemma open_cycle_state:
  "run (open_cycle solve_x) (fresh_state ''http://host/image.png'')
     = (fresh_state ''http://host/image.png'')
         \<lparr>form_created := True, balloon := [FormView],
          field_value := ''<p>solve x</p>'', element_value := ''<p>solve x</p>'',
          field_selected := True, preview := Some ''<p>solve x</p>'',
          requests :=
            [\<lparr>req_method = GET, req_url = ''http://host/image.png'', req_body = []\<rparr>,
             \<lparr>req_method = POST, req_url = ocr_endpoint,
                req_body = [\<lparr>part_name = ''file'', part_blob = [255, 216, 255],
                              part_filename = ''image.jpg''\<rparr>]\<rparr>]\<rparr>"
  by code_simp

section \<open>The claims\<close>

subsection \<open>C1\<close>

text \<open>
  C1. For every OCR response the transformation is to go through the distinct fragments
  of \<^verbatim>\<open>latex_maths.data\<close> in first-appearance order, replace every literal occurrence
  of each fragment in \<^verbatim>\<open>math_text.data\<close> by the fragment wrapped in a span of class
  math-tex, wrap the final string in a paragraph, and leave the text unchanged for
  fragments that do not occur in it.

  The loop of lines 196-198 misses this. Each call of \<^verbatim>\<open>replaceAll\<close> searches the
  running result, the span tags inserted for earlier fragments included. For the text
  \<^verbatim>\<open>a^2 = 4\<close> and the fragments \<^verbatim>\<open>a^2\<close>, \<^verbatim>\<open>x\<close>, the fragment \<^verbatim>\<open>x\<close> does
  not occur in the text; with \<^verbatim>\<open>a^2\<close> alone the result is the text with \<^verbatim>\<open>a^2\<close>
  wrapped, but with both fragments the \<^verbatim>\<open>x\<close> of the class name \<^verbatim>\<open>math-tex\<close> is
  wrapped, which cuts the attribute of the first span open. For the text \<^verbatim>\<open>x^2\<close> and
  the fragments \<^verbatim>\<open>x^2\<close>, \<^verbatim>\<open>x\<close> the same happens, and the \<^verbatim>\<open>x\<close> of
  \<^verbatim>\<open>x^2\<close> is wrapped a second time inside the first span. Besides, the replacement
  string is read as a template of \<^verbatim>\<open>replaceAll\<close>: the fragment \<^verbatim>\<open>$$\<close> is replaced by
  a span that holds a single dollar sign.
\<close>

theorem C1_later_fragment_rewrapped_in_markup:
  "\<not> sublist ''x'' (math_text \<lparr>math_text = ''a^2 = 4'', latex_maths = [''a^2'', ''x'']\<rparr>)
   \<and> transform_result \<lparr>math_text = ''a^2 = 4'', latex_maths = [''a^2'']\<rparr>
       = ''<p>'' @ span_template ''a^2'' @ '' = 4</p>''
   \<and> transform_result \<lparr>math_text = ''a^2 = 4'', latex_maths = [''a^2'', ''x'']\<rparr>
       = ''<p><span class='' @ [CHR 0x22] @ ''math-te'' @ span_template ''x'' @ [CHR 0x22]
         @ ''>a^2</span> = 4</p>''
   \<and> transform_result \<lparr>math_text = ''a^2 = 4'', latex_maths = [''a^2'', ''x'']\<rparr>
       \<noteq> ''<p>'' @ span_template ''a^2'' @ '' = 4</p>''
   \<and> transform_result \<lparr>math_text = ''x^2'', latex_maths = [''x^2'', ''x'']\<rparr>
       = ''<p><span class='' @ [CHR 0x22] @ ''math-te'' @ span_template ''x'' @ [CHR 0x22]
         @ ''>'' @ span_template ''x'' @ ''^2</span></p>''
   \<and> transform_result \<lparr>math_text = ''$$'', latex_maths = [''$$'']\<rparr>
       = ''<p>'' @ span_template ''$'' @ ''</p>''
   \<and> transform_result \<lparr>math_text = ''$$'', latex_maths = [''$$'']\<rparr>
       \<noteq> ''<p>'' @ span_template ''$$'' @ ''</p>''"
  by code_simp

subsection \<open>C2\<close>

text \<open>
  C2. Whenever the panel is opened, the field is to show the command's current value;
  opening twice without a change of that value is to show the same content; input typed
  during a cancelled edit is never to appear in a newly opened panel. The comment of
  lines 218-222 says the same of the assignment of line 223.

  The code misses this. Line 223 assigns the transformed recognition result; the
  command's value is read once, as the address of the image. After one full cycle on a
  fresh plugin, with the command's value \<^verbatim>\<open>http://host/image.png\<close> and the recognition
  result \<^verbatim>\<open>solve x\<close>, the panel is visible and its field holds \<^verbatim>\<open><p>solve x</p>\<close>.
  And the assignment comes after the form has been added to the balloon, with statements
  in between that can throw. When, after typing \<^verbatim>\<open>stale\<close> and cancelling, the panel is
  opened again and the reply lacks the expected fields, or \<^verbatim>\<open>MathJax.typeset\<close> throws,
  the panel is visible and its input still holds \<^verbatim>\<open>stale\<close>; in the second case the
  first opening showed the empty field, so the two openings differ although the command's
  value and the reply are the same.
\<close>

theorem C2_field_not_in_sync_with_command:
  "isVisible (run (open_cycle solve_x) (fresh_state ''http://host/image.png''))
   \<and> command_value (run (open_cycle solve_x) (fresh_state ''http://host/image.png''))
       = ''http://host/image.png''
   \<and> field_value (run (open_cycle solve_x) (fresh_state ''http://host/image.png''))
       = ''<p>solve x</p>''
   \<and> element_value (run (open_cycle solve_x) (fresh_state ''http://host/image.png''))
       = ''<p>solve x</p>''
   \<and> field_value (run (open_cycle solve_x) (fresh_state ''http://host/image.png''))
       \<noteq> command_value (run (open_cycle solve_x) (fresh_state ''http://host/image.png''))
   \<and> isVisible (run reopen_malformed (fresh_state ''http://host/image.png''))
   \<and> element_value (run reopen_malformed (fresh_state ''http://host/image.png'')) = ''stale''
   \<and> command_value (run reopen_malformed (fresh_state ''http://host/image.png''))
       = ''http://host/image.png''
   \<and> alerts (run reopen_malformed (fresh_state ''http://host/image.png''))
       = [''TypeError: no data'']
   \<and> isVisible (run (open_cycle solve_x) typeset_throws_state)
   \<and> element_value (run (open_cycle solve_x) typeset_throws_state) = []
   \<and> isVisible (run reopen_same typeset_throws_state)
   \<and> element_value (run reopen_same typeset_throws_state) = ''stale''
   \<and> command_value (run reopen_same typeset_throws_state) = ''http://host/image.png''"
proof -
  have once: "isVisible (run (open_cycle solve_x) (fresh_state ''http://host/image.png''))"
    "command_value (run (open_cycle solve_x) (fresh_state ''http://host/image.png''))
       = ''http://host/image.png''"
    "field_value (run (open_cycle solve_x) (fresh_state ''http://host/image.png''))
       = ''<p>solve x</p>''"
    "element_value (run (open_cycle solve_x) (fresh_state ''http://host/image.png''))
       = ''<p>solve x</p>''"
    unfolding open_cycle_state
    by (simp_all add: fresh_state_def isVisible_def visibleView_def)
  have malformed: "isVisible (run reopen_malformed (fresh_state ''http://host/image.png''))"
    "element_value (run reopen_malformed (fresh_state ''http://host/image.png'')) = ''stale''"
    "command_value (run reopen_malformed (fresh_state ''http://host/image.png''))
       = ''http://host/image.png''"
    "alerts (run reopen_malformed (fresh_state ''http://host/image.png''))
       = [''TypeError: no data'']"
    by code_simp+
  have throws: "isVisible (run (open_cycle solve_x) typeset_throws_state)"
    "element_value (run (open_cycle solve_x) typeset_throws_state) = []"
    "isVisible (run reopen_same typeset_throws_state)"
    "element_value (run reopen_same typeset_throws_state) = ''stale''"
    "command_value (run reopen_same typeset_throws_state) = ''http://host/image.png''"
    by code_simp+
  from once malformed throws show ?thesis by simp
qed

subsection \<open>C3\<close>

text \<open>
  C3. For \<^verbatim>\<open>math_text.data = "x^2 + x^2 = 0"\<close> and \<^verbatim>\<open>latex_maths.data = ["x^2"]\<close>
  the transformed result is the paragraph in which both occurrences of \<^verbatim>\<open>x^2\<close> are
  wrapped in a span of class math-tex, and nothing is wrapped twice.
\<close>

theorem C3_both_occurrences_wrapped:
  "transform_result \<lparr>math_text = ''x^2 + x^2 = 0'', latex_maths = [''x^2'']\<rparr>
     = ''<p><span class='' @ [CHR 0x22] @ ''math-tex'' @ [CHR 0x22] @ ''>x^2</span> + <span class=''
       @ [CHR 0x22] @ ''math-tex'' @ [CHR 0x22] @ ''>x^2</span> = 0</p>''"
  by code_simp

subsection \<open>C4\<close>

text \<open>
  C4. While the panel is shown, a submit event executes the command with \<open>newValue\<close>
  equal to the text that the input element holds at that moment, and then hides the panel:
  the call is logged first, on the state as it was, and afterwards the form is no longer
  in the balloon.
\<close>

theorem C4_submit_commits_field_text:
  "isVisible st \<Longrightarrow>
     step st Submit = hideForm True (editor_execute (element_value st) st)
     \<and> executed (step st Submit) = executed st @ [element_value st]
     \<and> \<not> isInBalloon (step st Submit) \<and> \<not> isVisible (step st Submit)"
proof -
  assume "isVisible st"
  then have "form_created st" by (simp add: isVisible_def)
  then show ?thesis
    by (simp add: on_submit_def hideForm_executed hideForm_removes hideForm_hides
        editor_execute_def)
qed

theorem C4_submit_commits_field_text_witness:
  "isVisible shown_state
   \<and> executed (step shown_state Submit) = [''typed text'']
   \<and> \<not> isInBalloon (step shown_state Submit)
   \<and> \<not> isVisible (step shown_state Submit)"
proof -
  have typed: "element_value shown_state = ''typed text''" "executed shown_state = []"
    "form_created shown_state"
    by (simp_all add: shown_state_def fresh_state_def)
  from C4_submit_commits_field_text [OF shown_state_visible] shown_state_visible typed
  show ?thesis by auto
qed

subsection \<open>C5\<close>

text \<open>
  C5. While the panel is shown, the form's cancel event, the Escape key and a click
  outside the panel each hide the panel and execute no command, so the alt-text, which
  only the command writes, stays as it is.
\<close>

theorem C5_closing_without_commit:
  "isVisible st \<Longrightarrow> ev \<in> {Cancel, EscKey, ClickOutside} \<Longrightarrow>
     \<not> isInBalloon (step st ev) \<and> \<not> isVisible (step st ev)
     \<and> executed (step st ev) = executed st"
proof -
  assume visible: "isVisible st" and ev: "ev \<in> {Cancel, EscKey, ClickOutside}"
  from visible have "form_created st" by (simp add: isVisible_def)
  with visible ev show ?thesis
    by (auto simp: on_cancel_def on_Esc_def on_click_outside_def
        hideForm_executed hideForm_removes hideForm_hides)
qed

theorem C5_closing_without_commit_witness:
  "isVisible shown_state
   \<and> \<not> isInBalloon (step shown_state Cancel) \<and> executed (step shown_state Cancel) = []
   \<and> \<not> isInBalloon (step shown_state EscKey) \<and> executed (step shown_state EscKey) = []
   \<and> \<not> isInBalloon (step shown_state ClickOutside)
   \<and> executed (step shown_state ClickOutside) = []"
proof -
  have none: "executed shown_state = []"
    by (simp add: shown_state_def fresh_state_def)
  from C5_closing_without_commit [OF shown_state_visible, of Cancel]
    C5_closing_without_commit [OF shown_state_visible, of EscKey]
    C5_closing_without_commit [OF shown_state_visible, of ClickOutside]
    shown_state_visible none
  show ?thesis by simp
qed

subsection \<open>C6\<close>

text \<open>
  C6. When the reply of the download makes \<^verbatim>\<open>_downloadImage\<close> fail, or the reply of the
  recognition request makes \<^verbatim>\<open>_sendFormData\<close> fail, the activation ends there: one alert
  shows the error, the balloon is left as it is, and no request is sent, so nothing of the
  activation is outstanding any more. A rejected \<^verbatim>\<open>fetch\<close> (network error) and a
  response with a status outside 200-299 are such failures, at either stage.
\<close>

theorem C6_failure_is_terminal:
  "(0 < pending_downloads st \<and> downloadImage dreply = Inl e \<longrightarrow>
      alerts (step st (DownloadSettled dreply)) = alerts st @ [error_toString e]
      \<and> balloon (step st (DownloadSettled dreply)) = balloon st
      \<and> requests (step st (DownloadSettled dreply)) = requests st
      \<and> pending_downloads (step st (DownloadSettled dreply)) = pending_downloads st - 1
      \<and> pending_posts (step st (DownloadSettled dreply)) = pending_posts st)
   \<and> (0 < pending_posts st \<and> sendFormData oreply = Inl e' \<longrightarrow>
      alerts (step st (OcrSettled oreply)) = alerts st @ [error_toString e']
      \<and> balloon (step st (OcrSettled oreply)) = balloon st
      \<and> requests (step st (OcrSettled oreply)) = requests st
      \<and> pending_downloads (step st (OcrSettled oreply)) = pending_downloads st
      \<and> pending_posts (step st (OcrSettled oreply)) = pending_posts st - 1)
   \<and> downloadImage (FetchRejected err) = Inl err
   \<and> (\<not> response_ok status \<longrightarrow>
        downloadImage (FetchResponse status body)
          = Inl (new_Error ('' Error downloading image. Status: '' @ Number_toString status @ '' '')))
   \<and> sendFormData (PostRejected err) = Inl (new_Error (error_toString err))
   \<and> (\<not> response_ok status \<longrightarrow> isl (sendFormData (PostResponse status json)))"
  by (auto simp: download_settled_def ocr_settled_def Let_def window_alert_def
      split: sum.splits)

theorem C6_failure_is_terminal_witness:
  "0 < pending_downloads loading_state
   \<and> \<not> response_ok 404
   \<and> downloadImage download_not_found
       = Inl (new_Error '' Error downloading image. Status: 404 '')
   \<and> alerts (step loading_state (DownloadSettled download_not_found))
       = [''Error:  Error downloading image. Status: 404 '']
   \<and> balloon (step loading_state (DownloadSettled download_not_found)) = []
   \<and> requests (step loading_state (DownloadSettled download_not_found)) = []
   \<and> 0 < pending_posts loading_state
   \<and> \<not> response_ok 422
   \<and> sendFormData ocr_unprocessable
       = Inl (new_Error ''Error: HTTP error! Status: 422, Message: bad image'')
   \<and> alerts (step loading_state (OcrSettled ocr_unprocessable))
       = [''Error: Error: HTTP error! Status: 422, Message: bad image'']
   \<and> balloon (step loading_state (OcrSettled ocr_unprocessable)) = []
   \<and> requests (step loading_state (OcrSettled ocr_unprocessable)) = []"
proof -
  have n404: "Number_toString 404 = ''404''" and n422: "Number_toString 422 = ''422''"
    by code_simp+
  have dl: "downloadImage download_not_found
      = Inl (new_Error '' Error downloading image. Status: 404 '')"
    by (simp add: download_not_found_def response_ok_def n404)
  have ocr: "sendFormData ocr_unprocessable
      = Inl (new_Error ''Error: HTTP error! Status: 422, Message: bad image'')"
    by (simp add: ocr_unprocessable_def response_ok_def n422 http_error_message_def
        detail_text_def new_Error_def)
  have init: "alerts loading_state = []" "balloon loading_state = []"
    "requests loading_state = []"
    by (simp_all add: loading_state_def fresh_state_def)
  from C6_failure_is_terminal [where st = loading_state and dreply = download_not_found
      and e = "new_Error '' Error downloading image. Status: 404 ''"
      and oreply = ocr_unprocessable
      and e' = "new_Error ''Error: HTTP error! Status: 422, Message: bad image''"]
    dl ocr init loading_state_pending
  show ?thesis by (simp add: response_ok_def new_Error_def)
qed

subsection \<open>C7\<close>

text \<open>
  C7. \<^verbatim>\<open>_showForm\<close> called while the form is the visible view changes nothing, and
  \<^verbatim>\<open>_hideForm\<close> called while the form is not in the balloon changes nothing.
\<close>

theorem C7_show_and_hide_are_guarded:
  "(isVisible st \<longrightarrow> showForm st = st \<and> step st ButtonExecute = st)
   \<and> (\<not> isInBalloon st \<longrightarrow> hideForm focusEditable st = st)"
  by (simp add: showForm_def hideForm_def)

theorem C7_show_and_hide_are_guarded_witness:
  "isVisible shown_state \<and> showForm shown_state = shown_state
   \<and> step shown_state ButtonExecute = shown_state
   \<and> \<not> isInBalloon (fresh_state ''http://host/image.png'')
   \<and> hideForm True (fresh_state ''http://host/image.png'') = fresh_state ''http://host/image.png''"
proof -
  have absent: "\<not> isInBalloon (fresh_state ''http://host/image.png'')"
    by (simp add: isInBalloon_def fresh_state_def)
  from C7_show_and_hide_are_guarded [where st = shown_state]
    C7_show_and_hide_are_guarded [where st = "fresh_state ''http://host/image.png''"
      and focusEditable = True]
    shown_state_visible absent
  show ?thesis by simp
qed

subsection \<open>C8\<close>

text \<open>
  C8. After a successful download the plugin sends one request: a POST to the fixed
  recognition address whose form data has one part, named \<^verbatim>\<open>file\<close>, holding the
  downloaded bytes under the file name \<^verbatim>\<open>image.jpg\<close>. A reply with a status outside
  200-299 whose body is a JSON object makes the call fail with an error whose message is
  built from the status and the object's \<^verbatim>\<open>detail\<close>.
\<close>

theorem C8_recognition_request:
  "(0 < pending_downloads st \<and> downloadImage dreply = Inr blob \<longrightarrow>
      requests (step st (DownloadSettled dreply))
        = requests st @
          [\<lparr>req_method = POST,
            req_url = ''https://internal-quizz.giainhanh.io/api/paper-exams/ocr-image'',
            req_body = [\<lparr>part_name = ''file'', part_blob = blob,
                          part_filename = ''image.jpg''\<rparr>]\<rparr>])
   \<and> (\<not> response_ok status \<longrightarrow>
      sendFormData (PostResponse status (Inr errorData))
        = Inl (new_Error (error_toString (new_Error
            (''HTTP error! Status: '' @ Number_toString status @ '', Message: ''
              @ detail_text errorData)))))"
  by (simp add: download_settled_def Let_def ocr_endpoint_def http_error_message_def)

theorem C8_recognition_request_witness:
  "0 < pending_downloads loading_state
   \<and> downloadImage download_ok = Inr [255, 216, 255]
   \<and> requests (step loading_state (DownloadSettled download_ok))
       = [\<lparr>req_method = POST,
           req_url = ''https://internal-quizz.giainhanh.io/api/paper-exams/ocr-image'',
           req_body = [\<lparr>part_name = ''file'', part_blob = [255, 216, 255],
                         part_filename = ''image.jpg''\<rparr>]\<rparr>]
   \<and> \<not> response_ok 422
   \<and> sendFormData ocr_unprocessable
       = Inl (new_Error ''Error: HTTP error! Status: 422, Message: bad image'')"
proof -
  have n422: "Number_toString 422 = ''422''"
    by code_simp
  have dl: "downloadImage download_ok = Inr [255, 216, 255]"
    by (simp add: download_ok_def response_ok_def)
  have init: "requests loading_state = []"
    by (simp add: loading_state_def fresh_state_def)
  from C8_recognition_request [where st = loading_state and dreply = download_ok
      and blob = "[255, 216, 255]" and status = 422
      and errorData = "\<lparr>detail = Some ''bad image'', payload = Inl (JsError ''TypeError'' [])\<rparr>"]
    dl init loading_state_pending
  show ?thesis
    by (simp add: response_ok_def ocr_unprocessable_def n422 detail_text_def new_Error_def)
qed

subsection \<open>C9\<close>

text \<open>
  C9. The form view is in the balloon at most once in every state the plugin reaches from
  its initial state, whatever events occur and in whatever order, overlapping activations
  included. The callback adds the form only when it is not in the balloon: when it is,
  the callback leaves the balloon as it is.
\<close>

theorem C9_form_added_at_most_once:
  "(initial st \<longrightarrow> count_list (balloon (run evs st)) FormView \<le> 1)
   \<and> (isInBalloon st' \<longrightarrow> balloon (on_ocr_data data st') = balloon st')
   \<and> (\<not> isInBalloon st' \<longrightarrow> balloon (on_ocr_data data st') = FormView # balloon st')"
proof (intro conjI impI)
  assume "initial st"
  then have "balloon_inv (run evs st)"
    by (intro run_inv initial_inv)
  then show "count_list (balloon (run evs st)) FormView \<le> 1"
    by (simp add: balloon_inv_def)
qed (simp_all add: on_ocr_data_balloon)

theorem C9_form_added_at_most_once_witness:
  "initial (fresh_state ''http://host/image.png'')
   \<and> count_list (balloon (run overlapping_cycles (fresh_state ''http://host/image.png'')))
       FormView \<le> 1
   \<and> balloon (run overlapping_cycles (fresh_state ''http://host/image.png'')) = [FormView]
   \<and> isInBalloon shown_state
   \<and> balloon (on_ocr_data (Inr solve_x) shown_state) = balloon shown_state
   \<and> \<not> isInBalloon loading_state
   \<and> balloon (on_ocr_data (Inr solve_x) loading_state) = [FormView]"
proof -
  have init: "initial (fresh_state ''http://host/image.png'')"
    by (simp add: initial_def fresh_state_def hasView_def)
  have final: "balloon (run overlapping_cycles (fresh_state ''http://host/image.png''))
      = [FormView]"
    by code_simp
  have absent: "\<not> isInBalloon loading_state" "balloon loading_state = []"
    by (simp_all add: isInBalloon_def loading_state_def fresh_state_def hasView_def)
  from C9_form_added_at_most_once
      [where st = "fresh_state ''http://host/image.png''" and evs = overlapping_cycles
        and st' = shown_state and data = "Inr solve_x"]
    C9_form_added_at_most_once [where st' = loading_state and data = "Inr solve_x"]
    init final absent isVisible_isInBalloon [OF shown_state_visible]
  show ?thesis by simp
qed

subsection \<open>C10\<close>

text \<open>
  C10. For every OCR response, the empty one included, the transformed result is a
  non-empty string that starts with \<^verbatim>\<open><p>\<close> and ends with \<^verbatim>\<open></p>\<close>; it is
  truthy, so \<^verbatim>\<open>result || ''\<close> never takes its right operand.
\<close>

theorem C10_result_never_empty:
  "transform_result data \<noteq> []
   \<and> prefix ''<p>'' (transform_result data)
   \<and> suffix ''</p>'' (transform_result data)
   \<and> js_truthy (transform_result data)
   \<and> js_or (transform_result data) [] = transform_result data
   \<and> transform_result \<lparr>math_text = [], latex_maths = []\<rparr> = ''<p></p>''"
proof -
  have shape: "transform_result data
      = ''<p>'' @ wrap_loop (spread_new_Set (latex_maths data)) (math_text data) @ ''</p>''"
    by (simp add: transform_result_def)
  have "transform_result \<lparr>math_text = [], latex_maths = []\<rparr> = ''<p></p>''"
    by (simp add: transform_result_def spread_new_Set_def)
  moreover have "suffix ''</p>'' (transform_result data)"
    unfolding shape suffix_def by (metis append_assoc)
  ultimately show ?thesis
    by (simp add: shape js_truthy_def js_or_def)
qed

end
